theory Spec2Isabelle
  imports Complex_Main "HOL-Library.Word"
begin

section \<open>Errors and panics\<close>

text \<open>
  The wrapper reports failures as Go \<open>error\<close> values; every \<open>errors.New\<close> and
  \<open>fmt.Errorf\<close> of the source is one constructor. A run-time panic (an index out of
  range at \<open>&img.Pix[0]\<close>, a nil receiver, an image too large to allocate) is an
  outcome of its own and is kept apart from the returned errors by its constructor name.
\<close>

datatype error =
    ErrNotUTF8
  | ErrFileOpenFailed
  | ErrMalformedGzip
  | ErrElementsLimit
  | ErrInvalidSize
  | ErrParsingFailed
  | ErrUnknownResvg int
  | ErrEmptyData
  | ErrNoRenderableElements
  | ErrInvalidDimensions
  | ErrInvalidNaturalDimensions
  | ErrRenderNodeFailed string
  | PanicIndexOutOfRange
  | PanicNilDereference
  | PanicHugeImage

type_synonym uint8 = "8 word"
type_synonym uint32 = "32 word"
type_synonym int32 = "32 word"

section \<open>The image buffer (Go's \<open>image.RGBA\<close>)\<close>

record Point =
  pt_X :: int
  pt_Y :: int

record Rectangle =
  Min_pt :: Point
  Max_pt :: Point

record RGBA =
  Pix :: "uint8 list"
  Stride :: int
  Rect :: Rectangle

text \<open>\<open>image.Rect\<close> orders its corners.\<close>

definition image_Rect :: "int \<Rightarrow> int \<Rightarrow> int \<Rightarrow> int \<Rightarrow> Rectangle" where
  "image_Rect x0 y0 x1 y1 =
     \<lparr>Min_pt = \<lparr>pt_X = min x0 x1, pt_Y = min y0 y1\<rparr>,
      Max_pt = \<lparr>pt_X = max x0 x1, pt_Y = max y0 y1\<rparr>\<rparr>"

definition Dx :: "Rectangle \<Rightarrow> int" where
  "Dx r = pt_X (Max_pt r) - pt_X (Min_pt r)"

definition Dy :: "Rectangle \<Rightarrow> int" where
  "Dy r = pt_Y (Max_pt r) - pt_Y (Min_pt r)"

definition maxInt :: int where
  "maxInt = 2 ^ 63 - 1"

text \<open>
  \<open>image.NewRGBA\<close>: a zeroed buffer of \<open>4 * Dx * Dy\<close> bytes with stride \<open>4 * Dx\<close>;
  it panics when that length is negative or does not fit Go's 64-bit \<open>int\<close>. Running
  out of memory for a length that fits is not modelled.
\<close>

definition NewRGBA :: "Rectangle \<Rightarrow> error + RGBA" where
  "NewRGBA r =
     (if Dx r < 0 \<or> Dy r < 0 \<or> 4 * Dx r * Dy r > maxInt then Inl PanicHugeImage
      else Inr \<lparr>Pix = replicate (nat (4 * Dx r * Dy r)) 0, Stride = 4 * Dx r, Rect = r\<rparr>)"

definition PixOffset :: "RGBA \<Rightarrow> int \<Rightarrow> int \<Rightarrow> int" where
  "PixOffset img x y =
     (y - pt_Y (Min_pt (Rect img))) * Stride img + (x - pt_X (Min_pt (Rect img))) * 4"

section \<open>Premultiplied to straight alpha\<close>

text \<open>
  One colour channel of \<open>convertFromPremultiplied\<close>, on \<open>uint32\<close> as in the source:
  \<open>r = (r * 255) / a; if r > 255 { r = 255 }\<close>. The division is Go's unsigned integer
  division, which truncates.
\<close>

definition unpremultiply :: "uint32 \<Rightarrow> uint32 \<Rightarrow> uint32" where
  "unpremultiply c a = (let r = (c * 255) div a in if r > 255 then 255 else r)"

text \<open>
  The loop body at pixel \<open>(x, y)\<close>. The four reads \<open>img.Pix[i+0..i+3]\<close> come first and
  panic when an index is out of range; the three writes happen only for
  \<open>a \<noteq> 0 \<and> a \<noteq> 255\<close>.
\<close>

definition convert_pixel :: "RGBA \<Rightarrow> int \<Rightarrow> int \<Rightarrow> error + RGBA" where
  "convert_pixel img x y =
     (let i = PixOffset img x y in
      if i < 0 \<or> int (length (Pix img)) \<le> i + 3 then Inl PanicIndexOutOfRange
      else
        let n = nat i;
            r = (ucast (Pix img ! n) :: uint32);
            g = (ucast (Pix img ! (n + 1)) :: uint32);
            b = (ucast (Pix img ! (n + 2)) :: uint32);
            a = (ucast (Pix img ! (n + 3)) :: uint32)
        in if a \<noteq> 0 \<and> a \<noteq> 255
           then Inr (img\<lparr>Pix := (Pix img)
                   [n := ucast (unpremultiply r a),
                    n + 1 := ucast (unpremultiply g a),
                    n + 2 := ucast (unpremultiply b a)]\<rparr>)
           else Inr img)"

text \<open>The inner loop \<open>for x := bounds.Min.X; x < bounds.Max.X; x++\<close>.\<close>

function convert_row :: "RGBA \<Rightarrow> Rectangle \<Rightarrow> int \<Rightarrow> int \<Rightarrow> error + RGBA" where
  "convert_row img bounds y x =
     (if x < pt_X (Max_pt bounds)
      then (case convert_pixel img x y of
              Inl e \<Rightarrow> Inl e
            | Inr img' \<Rightarrow> convert_row img' bounds y (x + 1))
      else Inr img)"
  by pat_completeness auto
termination
  by (relation "measure (\<lambda>(img, bounds, y, x). nat (pt_X (Max_pt bounds) - x))") auto

declare convert_row.simps [simp del]

text \<open>The outer loop \<open>for y := bounds.Min.Y; y < bounds.Max.Y; y++\<close>.\<close>

function convert_rows :: "RGBA \<Rightarrow> Rectangle \<Rightarrow> int \<Rightarrow> error + RGBA" where
  "convert_rows img bounds y =
     (if y < pt_Y (Max_pt bounds)
      then (case convert_row img bounds y (pt_X (Min_pt bounds)) of
              Inl e \<Rightarrow> Inl e
            | Inr img' \<Rightarrow> convert_rows img' bounds (y + 1))
      else Inr img)"
  by pat_completeness auto
termination
  by (relation "measure (\<lambda>(img, bounds, y). nat (pt_Y (Max_pt bounds) - y))") auto

declare convert_rows.simps [simp del]

definition convertFromPremultiplied :: "RGBA \<Rightarrow> error + RGBA" where
  "convertFromPremultiplied img = convert_rows img (Rect img) (pt_Y (Min_pt (Rect img)))"


section \<open>Floating point (Go's \<open>float32\<close> and \<open>float64\<close>)\<close>

text \<open>
  An IEEE 754 value is a finite rational, a negative zero, an infinity or a NaN;
  \<open>Finite 0\<close> is the positive zero. Every \<open>float32\<close> is a \<open>float64\<close>, so one type
  holds both and the widening conversion \<open>float64(x)\<close> is the identity. An operation
  computes the exact rational result and rounds it to the nearest value of the format,
  ties to even. Every operation rounds on its own: the wrapper is built for amd64 only,
  where Go does not fuse a multiplication with an addition.
\<close>

datatype float = Finite rat | NegZero | PosInf | NegInf | NaN

type_synonym float32 = float
type_synonym float64 = float

definition Signbit :: "float \<Rightarrow> bool" where
  "Signbit x = (case x of Finite q \<Rightarrow> q < 0 | NegZero \<Rightarrow> True | NegInf \<Rightarrow> True | _ \<Rightarrow> False)"

definition is_inf :: "float \<Rightarrow> bool" where
  "is_inf x = (x = PosInf \<or> x = NegInf)"

definition is_zero :: "float \<Rightarrow> bool" where
  "is_zero x = (x = Finite 0 \<or> x = NegZero)"

definition signed_zero :: "bool \<Rightarrow> float" where
  "signed_zero neg = (if neg then NegZero else Finite 0)"

definition signed_inf :: "bool \<Rightarrow> float" where
  "signed_inf neg = (if neg then NegInf else PosInf)"

text \<open>The rational value of a finite float (both zeros are 0).\<close>

definition rat_of_float :: "float \<Rightarrow> rat" where
  "rat_of_float x = (case x of Finite q \<Rightarrow> q | _ \<Rightarrow> 0)"

text \<open>The number of binary digits of a positive integer (Go's \<open>bits.Len\<close>).\<close>

function bit_length :: "int \<Rightarrow> int" where
  "bit_length n = (if n \<le> 0 then 0 else 1 + bit_length (n div 2))"
  by pat_completeness auto
termination
  by (relation "measure nat") auto

declare bit_length.simps [simp del]

text \<open>\<open>ilog2 q\<close> is \<open>\<lfloor>log\<^sub>2 q\<rfloor>\<close> for a positive rational, computed from bit lengths.\<close>

definition ilog2 :: "rat \<Rightarrow> int" where
  "ilog2 q = (if 1 \<le> q then bit_length \<lfloor>q\<rfloor> - 1 else - bit_length (\<lceil>1 / q\<rceil> - 1))"

definition round_half_even :: "rat \<Rightarrow> int" where
  "round_half_even x =
     (let m = \<lfloor>x\<rfloor>; r = x - of_int m
      in if r < 1 / 2 then m else if 1 / 2 < r then m + 1 else if even m then m else m + 1)"

text \<open>
  Rounding a rational to the binary format with \<open>p\<close> significant bits and exponents
  \<open>emin .. emax\<close>: the spacing of the format at \<open>q\<close> is \<open>2 ^ (e - p + 1)\<close> with
  \<open>e = max \<lfloor>log\<^sub>2 |q|\<rfloor> emin\<close> (the subnormal range has the spacing of \<open>emin\<close>); a
  result rounded to zero keeps the sign, and a result whose exponent is above \<open>emax\<close>,
  that is of magnitude \<open>2 ^ (emax + 1)\<close> or more, overflows to an infinity.
\<close>

definition round_to_format :: "int \<Rightarrow> int \<Rightarrow> int \<Rightarrow> rat \<Rightarrow> float" where
  "round_to_format p emin emax q =
     (if q = 0 then Finite 0
      else
        let e = max (ilog2 \<bar>q\<bar>) emin;
            ulp = 2 powi (e - p + 1);
            y = of_int (round_half_even (q / ulp)) * ulp
        in if y = 0 then signed_zero (q < 0)
           else if emax < ilog2 \<bar>y\<bar> then signed_inf (q < 0)
           else Finite y)"

definition round64 :: "rat \<Rightarrow> float64" where
  "round64 = round_to_format 53 (- 1022) 1023"

definition round32 :: "rat \<Rightarrow> float32" where
  "round32 = round_to_format 24 (- 126) 127"

text \<open>The \<open>float64\<close> operators \<open>/\<close>, \<open>*\<close> and \<open>-\<close>.\<close>

definition fdiv :: "float64 \<Rightarrow> float64 \<Rightarrow> float64" where
  "fdiv x y =
     (if x = NaN \<or> y = NaN then NaN
      else if is_inf x then (if is_inf y then NaN else signed_inf (Signbit x \<noteq> Signbit y))
      else if is_inf y then signed_zero (Signbit x \<noteq> Signbit y)
      else if is_zero y then (if is_zero x then NaN else signed_inf (Signbit x \<noteq> Signbit y))
      else if is_zero x then signed_zero (Signbit x \<noteq> Signbit y)
      else round64 (rat_of_float x / rat_of_float y))"

definition fmul :: "float64 \<Rightarrow> float64 \<Rightarrow> float64" where
  "fmul x y =
     (if x = NaN \<or> y = NaN then NaN
      else if is_inf x \<or> is_inf y
        then (if is_zero x \<or> is_zero y then NaN else signed_inf (Signbit x \<noteq> Signbit y))
      else if is_zero x \<or> is_zero y then signed_zero (Signbit x \<noteq> Signbit y)
      else round64 (rat_of_float x * rat_of_float y))"

definition fsub :: "float64 \<Rightarrow> float64 \<Rightarrow> float64" where
  "fsub x y =
     (if x = NaN \<or> y = NaN then NaN
      else if is_inf x then (if is_inf y \<and> Signbit x = Signbit y then NaN else x)
      else if is_inf y then signed_inf (\<not> Signbit y)
      else if is_zero x \<and> is_zero y
        then (if x = NegZero \<and> y = Finite 0 then NegZero else Finite 0)
      else round64 (rat_of_float x - rat_of_float y))"

text \<open>The comparisons \<open>x <= 0\<close> and \<open>x < y\<close>; every comparison with a NaN is false.\<close>

definition float_le_zero :: "float \<Rightarrow> bool" where
  "float_le_zero x =
     (case x of Finite q \<Rightarrow> q \<le> 0 | NegZero \<Rightarrow> True | NegInf \<Rightarrow> True | _ \<Rightarrow> False)"

definition float_less :: "float \<Rightarrow> float \<Rightarrow> bool" where
  "float_less x y =
     (if x = NaN \<or> y = NaN then False
      else if x = PosInf \<or> y = NegInf then False
      else if x = NegInf \<or> y = PosInf then True
      else rat_of_float x < rat_of_float y)"

text \<open>
  \<open>math.Min\<close>, with the special cases of its documentation in their order:
  \<open>Min(x, -Inf) = Min(-Inf, x) = -Inf\<close>, \<open>Min(x, NaN) = Min(NaN, x) = NaN\<close>,
  \<open>Min(-0, \<plusminus>0) = Min(\<plusminus>0, -0) = -0\<close>.
\<close>

definition math_Min :: "float64 \<Rightarrow> float64 \<Rightarrow> float64" where
  "math_Min x y =
     (if x = NegInf \<or> y = NegInf then NegInf
      else if x = NaN \<or> y = NaN then NaN
      else if is_zero x \<and> is_zero y then (if Signbit x then x else y)
      else if float_less x y then x else y)"

text \<open>The conversions \<open>float32(x)\<close> of a \<open>float64\<close> and \<open>float64(n)\<close> of a \<open>uint32\<close>.\<close>

definition float32_of_float64 :: "float64 \<Rightarrow> float32" where
  "float32_of_float64 x = (case x of Finite q \<Rightarrow> round32 q | _ \<Rightarrow> x)"

definition float64_of_uint32 :: "uint32 \<Rightarrow> float64" where
  "float64_of_uint32 n = Finite (of_nat (unat n))"

text \<open>
  \<open>uint32(x)\<close> of a \<open>float32\<close> discards the fraction when the value is in range.
  Out of range (also for an infinity or a NaN) the Go specification leaves the result to
  the implementation, so it is the parameter \<open>oor\<close>.
\<close>

definition uint32_of_float32 :: "(float32 \<Rightarrow> uint32) \<Rightarrow> float32 \<Rightarrow> uint32" where
  "uint32_of_float32 oor x =
     (case x of
        Finite q \<Rightarrow> if - 1 < q \<and> q < 2 ^ 32 then word_of_int (if 0 \<le> q then \<lfloor>q\<rfloor> else 0)
                    else oor x
      | NegZero \<Rightarrow> 0
      | _ \<Rightarrow> oor x)"


section \<open>The wrapper types\<close>

record Transform =
  t_A :: float32
  t_B :: float32
  t_C :: float32
  t_D :: float32
  t_E :: float32
  t_F :: float32

record Size =
  Width :: float32
  Height :: float32

text \<open>
  \<open>Options\<close> and \<open>RenderTree\<close> hold a pointer into the native library; \<open>None\<close> is the
  nil pointer, which \<open>destroy\<close> stores after releasing the object. The finalizers set
  with \<open>runtime.SetFinalizer\<close> run at a time the garbage collector chooses and are left
  out.
\<close>

record 'o Options =
  cOpts :: "'o option"

record 't RenderTree =
  cTree :: "'t option"

section \<open>The native library\<close>

text \<open>
  The rendering engine is a pre-built library reached through cgo. Its functions, the
  result codes of its header and the one implementation-defined conversion of Go are the
  fields of a record, so that every statement about the wrapper holds for whatever the
  engine computes. \<open>resvg_render\<close> and \<open>resvg_render_node\<close> receive the pixel buffer
  and give the premultiplied bytes they store into it.
\<close>

record ('o, 't) resvg =
  RESVG_OK :: int32
  RESVG_ERROR_NOT_AN_UTF8_STR :: int32
  RESVG_ERROR_FILE_OPEN_FAILED :: int32
  RESVG_ERROR_MALFORMED_GZIP :: int32
  RESVG_ERROR_ELEMENTS_LIMIT_REACHED :: int32
  RESVG_ERROR_INVALID_SIZE :: int32
  RESVG_ERROR_PARSING_FAILED :: int32
  resvg_options_create :: "'o option"
  resvg_options_load_system_fonts :: "'o option \<Rightarrow> 'o option"
  resvg_parse_tree_from_data :: "uint8 list \<Rightarrow> 'o option \<Rightarrow> int32 \<times> 't option"
  resvg_is_image_empty :: "'t option \<Rightarrow> bool"
  resvg_get_image_size :: "'t option \<Rightarrow> float32 \<times> float32"
  resvg_transform_identity :: Transform
  resvg_render :: "'t option \<Rightarrow> Transform \<Rightarrow> uint32 \<Rightarrow> uint32 \<Rightarrow> uint8 list \<Rightarrow> uint8 list"
  resvg_render_node ::
    "'t option \<Rightarrow> string \<Rightarrow> Transform \<Rightarrow> uint32 \<Rightarrow> uint32 \<Rightarrow> uint8 list \<Rightarrow> bool \<times> uint8 list"
  uint32_out_of_range :: "float32 \<Rightarrow> uint32"

text \<open>The calls into the library, recorded in the order they are made.\<close>

datatype ffi_call =
    Call_options_create
  | Call_options_load_system_fonts
  | Call_options_destroy
  | Call_parse_tree_from_data "uint8 list"
  | Call_is_image_empty
  | Call_get_image_size
  | Call_transform_identity
  | Call_render Transform uint32 uint32
  | Call_render_node string Transform uint32 uint32
  | Call_tree_destroy

text \<open>
  A wrapper function gives the calls it made and either the value it returned or the
  error (or panic) it ended with.
\<close>

type_synonym 'a outcome = "ffi_call list \<times> (error + 'a)"

definition bind :: "'a outcome \<Rightarrow> ('a \<Rightarrow> 'b outcome) \<Rightarrow> 'b outcome" where
  "bind m f =
     (case m of
        (cs, Inl e) \<Rightarrow> (cs, Inl e)
      | (cs, Inr x) \<Rightarrow> (case f x of (cs', r) \<Rightarrow> (cs @ cs', r)))"

text \<open>\<open>defer\<close>: the deferred calls run when the function ends, whatever its result.\<close>

definition deferred :: "ffi_call list \<Rightarrow> 'a outcome \<Rightarrow> 'a outcome" where
  "deferred ds m = (case m of (cs, r) \<Rightarrow> (cs @ ds, r))"

text \<open>
  What a buffer holds after the library stored \<open>new\<close> from its start: the library
  writes through a raw pointer and cannot change the length of the Go slice.
\<close>

definition stored :: "uint8 list \<Rightarrow> uint8 list \<Rightarrow> uint8 list" where
  "stored old new = take (length old) new @ drop (length new) old"


section \<open>The wrapper functions\<close>

definition cErrorToGoError :: "('o, 't) resvg \<Rightarrow> int32 \<Rightarrow> error option" where
  "cErrorToGoError lib result =
     (if result = RESVG_OK lib then None
      else if result = RESVG_ERROR_NOT_AN_UTF8_STR lib then Some ErrNotUTF8
      else if result = RESVG_ERROR_FILE_OPEN_FAILED lib then Some ErrFileOpenFailed
      else if result = RESVG_ERROR_MALFORMED_GZIP lib then Some ErrMalformedGzip
      else if result = RESVG_ERROR_ELEMENTS_LIMIT_REACHED lib then Some ErrElementsLimit
      else if result = RESVG_ERROR_INVALID_SIZE lib then Some ErrInvalidSize
      else if result = RESVG_ERROR_PARSING_FAILED lib then Some ErrParsingFailed
      else Some (ErrUnknownResvg (sint result)))"

definition NewOptions :: "('o, 't) resvg \<Rightarrow> 'o Options outcome" where
  "NewOptions lib = ([Call_options_create], Inr \<lparr>cOpts = resvg_options_create lib\<rparr>)"

definition LoadSystemFonts :: "('o, 't) resvg \<Rightarrow> 'o Options \<Rightarrow> 'o Options outcome" where
  "LoadSystemFonts lib opts =
     ([Call_options_load_system_fonts],
      Inr (opts\<lparr>cOpts := resvg_options_load_system_fonts lib (cOpts opts)\<rparr>))"

text \<open>The calls of \<open>(*Options).destroy\<close> and \<open>(*RenderTree).destroy\<close>.\<close>

definition Options_destroy :: "'o Options \<Rightarrow> ffi_call list" where
  "Options_destroy opts = (if cOpts opts \<noteq> None then [Call_options_destroy] else [])"

definition RenderTree_destroy :: "'t RenderTree \<Rightarrow> ffi_call list" where
  "RenderTree_destroy t = (if cTree t \<noteq> None then [Call_tree_destroy] else [])"

text \<open>
  \<open>ParseFromData\<close>; \<open>opts\<close> is a Go pointer, \<open>None\<close> when nil, and is dereferenced
  only after the length check.
\<close>

definition ParseFromData ::
  "('o, 't) resvg \<Rightarrow> uint8 list \<Rightarrow> 'o Options option \<Rightarrow> 't RenderTree outcome" where
  "ParseFromData lib data opts =
     (if length data = 0 then ([], Inl ErrEmptyData)
      else case opts of
        None \<Rightarrow> ([], Inl PanicNilDereference)
      | Some ops \<Rightarrow>
          (case resvg_parse_tree_from_data lib data (cOpts ops) of
             (result, tree) \<Rightarrow>
               ([Call_parse_tree_from_data data],
                case cErrorToGoError lib result of
                  Some err \<Rightarrow> Inl err
                | None \<Rightarrow> Inr \<lparr>cTree = tree\<rparr>)))"

definition IsEmpty :: "('o, 't) resvg \<Rightarrow> 't RenderTree \<Rightarrow> bool outcome" where
  "IsEmpty lib t = ([Call_is_image_empty], Inr (resvg_is_image_empty lib (cTree t)))"

definition GetImageSize :: "('o, 't) resvg \<Rightarrow> 't RenderTree \<Rightarrow> Size outcome" where
  "GetImageSize lib t =
     ([Call_get_image_size],
      case resvg_get_image_size lib (cTree t) of (w, h) \<Rightarrow> Inr \<lparr>Width = w, Height = h\<rparr>)"

definition IdentityTransform :: "('o, 't) resvg \<Rightarrow> Transform outcome" where
  "IdentityTransform lib = ([Call_transform_identity], Inr (resvg_transform_identity lib))"

text \<open>
  \<open>(*RenderTree).Render\<close>: allocate, take the address of the first byte (a panic on an
  empty buffer), let the library draw, convert.
\<close>

definition RenderTree_Render ::
  "('o, 't) resvg \<Rightarrow> 't RenderTree \<Rightarrow> Transform \<Rightarrow> uint32 \<Rightarrow> uint32 \<Rightarrow> RGBA outcome" where
  "RenderTree_Render lib t transform width height =
     bind ([], NewRGBA (image_Rect 0 0 (uint width) (uint height))) (\<lambda>img.
       if Pix img = [] then ([], Inl PanicIndexOutOfRange)
       else
         ([Call_render transform width height],
          convertFromPremultiplied
            (img\<lparr>Pix := stored (Pix img)
               (resvg_render lib (cTree t) transform width height (Pix img))\<rparr>)))"


text \<open>The convenience functions. Each releases the tree and the options on every path.\<close>

definition Render :: "('o, 't) resvg \<Rightarrow> uint8 list \<Rightarrow> RGBA outcome" where
  "Render lib data =
     bind (NewOptions lib) (\<lambda>opts0.
     bind (LoadSystemFonts lib opts0) (\<lambda>opts.
     deferred (Options_destroy opts)
       (bind (ParseFromData lib data (Some opts)) (\<lambda>tree.
        deferred (RenderTree_destroy tree)
          (bind (IsEmpty lib tree) (\<lambda>empty.
           if empty then ([], Inl ErrNoRenderableElements)
           else
             bind (GetImageSize lib tree) (\<lambda>size.
             if float_le_zero (Width size) \<or> float_le_zero (Height size)
             then ([], Inl ErrInvalidDimensions)
             else
               bind (IdentityTransform lib) (\<lambda>ident.
               RenderTree_Render lib tree ident
                 (uint32_of_float32 (uint32_out_of_range lib) (Width size))
                 (uint32_of_float32 (uint32_out_of_range lib) (Height size))))))))))"

definition RenderWithSize :: "('o, 't) resvg \<Rightarrow> uint8 list \<Rightarrow> uint32 \<Rightarrow> uint32 \<Rightarrow> RGBA outcome"
  where
  "RenderWithSize lib data width height =
     bind (NewOptions lib) (\<lambda>opts0.
     bind (LoadSystemFonts lib opts0) (\<lambda>opts.
     deferred (Options_destroy opts)
       (bind (ParseFromData lib data (Some opts)) (\<lambda>tree.
        deferred (RenderTree_destroy tree)
          (bind (IsEmpty lib tree) (\<lambda>empty.
           if empty then ([], Inl ErrNoRenderableElements)
           else
             bind (IdentityTransform lib) (\<lambda>ident.
             RenderTree_Render lib tree ident width height)))))))"

text \<open>
  The arithmetic of \<open>RenderScaledToSize\<close> between the size check and the render call,
  in \<open>float64\<close>: the scale, the scaled dimensions and the centring offsets.
\<close>

record Fit =
  scale :: float64
  scaledW :: float64
  scaledH :: float64
  tx :: float64
  ty :: float64

definition fit :: "float64 \<Rightarrow> float64 \<Rightarrow> float64 \<Rightarrow> float64 \<Rightarrow> Fit" where
  "fit naturalW naturalH targetW targetH =
     (let scaleX = fdiv targetW naturalW;
          scaleY = fdiv targetH naturalH;
          scale = math_Min scaleX scaleY;
          scaledW = fmul naturalW scale;
          scaledH = fmul naturalH scale;
          tx = fdiv (fsub targetW scaledW) (Finite 2);
          ty = fdiv (fsub targetH scaledH) (Finite 2)
      in \<lparr>scale = scale, scaledW = scaledW, scaledH = scaledH, tx = tx, ty = ty\<rparr>)"

definition fit_transform :: "Fit \<Rightarrow> Transform" where
  "fit_transform f =
     \<lparr>t_A = float32_of_float64 (scale f), t_B = Finite 0, t_C = Finite 0,
      t_D = float32_of_float64 (scale f),
      t_E = float32_of_float64 (tx f), t_F = float32_of_float64 (ty f)\<rparr>"

definition RenderScaledToSize ::
  "('o, 't) resvg \<Rightarrow> uint8 list \<Rightarrow> uint32 \<Rightarrow> uint32 \<Rightarrow> RGBA outcome" where
  "RenderScaledToSize lib data width height =
     bind (NewOptions lib) (\<lambda>opts0.
     bind (LoadSystemFonts lib opts0) (\<lambda>opts.
     deferred (Options_destroy opts)
       (bind (ParseFromData lib data (Some opts)) (\<lambda>tree.
        deferred (RenderTree_destroy tree)
          (bind (IsEmpty lib tree) (\<lambda>empty.
           if empty then ([], Inl ErrNoRenderableElements)
           else
             bind (GetImageSize lib tree) (\<lambda>naturalSize.
             let naturalW = Width naturalSize; naturalH = Height naturalSize in
             if float_le_zero naturalW \<or> float_le_zero naturalH
             then ([], Inl ErrInvalidNaturalDimensions)
             else
               RenderTree_Render lib tree
                 (fit_transform
                    (fit naturalW naturalH (float64_of_uint32 width) (float64_of_uint32 height)))
                 width height)))))))"


section \<open>Notions used in the statements\<close>

text \<open>
  \<open>canvas w h buf\<close> is the image \<open>image.NewRGBA(image.Rect(0, 0, w, h))\<close> with the bytes
  \<open>buf\<close> in its buffer: the only shape of image \<open>convertFromPremultiplied\<close> is called on.
\<close>

definition canvas :: "nat \<Rightarrow> nat \<Rightarrow> uint8 list \<Rightarrow> RGBA" where
  "canvas w h buf = \<lparr>Pix = buf, Stride = 4 * int w, Rect = image_Rect 0 0 (int w) (int h)\<rparr>"

text \<open>
  The byte at offset \<open>j\<close> after the pass, read off the buffer before it: a colour byte of
  a pixel with alpha other than 0 and 255 is unpremultiplied, every other byte is kept.
\<close>

definition straight_byte :: "uint8 list \<Rightarrow> nat \<Rightarrow> uint8" where
  "straight_byte buf j =
     (let a = buf ! (4 * (j div 4) + 3)
      in if j mod 4 < 3 \<and> a \<noteq> 0 \<and> a \<noteq> 255
         then ucast (unpremultiply (ucast (buf ! j)) (ucast a))
         else buf ! j)"

definition straight :: "uint8 list \<Rightarrow> uint8 list" where
  "straight buf = map (straight_byte buf) [0..<length buf]"

text \<open>The buffer when the loop has passed the first \<open>n\<close> pixels.\<close>

definition converted_upto :: "uint8 list \<Rightarrow> nat \<Rightarrow> uint8 list" where
  "converted_upto buf n =
     map (\<lambda>j. if j < 4 * n then straight_byte buf j else buf ! j) [0..<length buf]"


text \<open>The options the convenience functions parse with.\<close>

definition system_options :: "('o, 't) resvg \<Rightarrow> 'o Options" where
  "system_options lib =
     \<lparr>cOpts = resvg_options_load_system_fonts lib (resvg_options_create lib)\<rparr>"



text \<open>
  A small engine to run the wrapper on. A document is its bytes: the natural width, the
  natural height, then the premultiplied bytes it draws; a leading zero byte does not
  parse. The only element identifier is \<open>''a''\<close>.
\<close>

definition toy :: "(unit, uint8 list) resvg" where
  "toy =
     \<lparr>RESVG_OK = 0,
      RESVG_ERROR_NOT_AN_UTF8_STR = 1,
      RESVG_ERROR_FILE_OPEN_FAILED = 2,
      RESVG_ERROR_MALFORMED_GZIP = 3,
      RESVG_ERROR_ELEMENTS_LIMIT_REACHED = 4,
      RESVG_ERROR_INVALID_SIZE = 5,
      RESVG_ERROR_PARSING_FAILED = 6,
      resvg_options_create = Some (),
      resvg_options_load_system_fonts = (\<lambda>ops. ops),
      resvg_parse_tree_from_data =
        (\<lambda>data ops. if hd data = 0 then (6, None) else (0, Some data)),
      resvg_is_image_empty = (\<lambda>t. case t of Some doc \<Rightarrow> drop 2 doc = [] | None \<Rightarrow> True),
      resvg_get_image_size =
        (\<lambda>t. case t of
           Some (w # h # _) \<Rightarrow> (Finite (of_nat (unat w)), Finite (of_nat (unat h)))
         | _ \<Rightarrow> (Finite 0, Finite 0)),
      resvg_transform_identity =
        \<lparr>t_A = Finite 1, t_B = Finite 0, t_C = Finite 0,
         t_D = Finite 1, t_E = Finite 0, t_F = Finite 0\<rparr>,
      resvg_render = (\<lambda>t transform width height buf. case t of Some doc \<Rightarrow> drop 2 doc | None \<Rightarrow> []),
      resvg_render_node =
        (\<lambda>t ident transform width height buf.
           case t of Some doc \<Rightarrow> (ident = ''a'', drop 2 doc) | None \<Rightarrow> (False, [])),
      uint32_out_of_range = (\<lambda>x. 0)\<rparr>"

section \<open>The conversion pass on a canvas\<close>

lemma unat_ucast_8_32: "unat (ucast (c :: uint8) :: uint32) = unat c"
proof -
  have "unat c < 2 ^ 32" using unsigned_less[of c, where 'a=nat] by simp
  then show ?thesis by (simp add: unsigned_ucast_eq take_bit_nat_eq_self)
qed

lemma ucast_8_32_eq_0: "(ucast (a :: uint8) :: uint32) = 0 \<longleftrightarrow> a = 0"
  by (simp add: word_unat_eq_iff unat_ucast_8_32)

lemma ucast_8_32_eq_255: "(ucast (a :: uint8) :: uint32) = 255 \<longleftrightarrow> a = 255"
  by (simp add: word_unat_eq_iff unat_ucast_8_32)

lemma length_converted_upto [simp]: "length (converted_upto buf n) = length buf"
  by (simp add: converted_upto_def)

lemma converted_upto_nth:
  "j < length buf \<Longrightarrow>
   converted_upto buf n ! j = (if j < 4 * n then straight_byte buf j else buf ! j)"
  by (simp add: converted_upto_def)

lemma pixel_index_bound:
  assumes "x < w" "y < h"
  shows "4 * (y * w + x) + 3 < 4 * w * (h::nat)"
proof -
  have "y * w + x < Suc y * w" using assms by simp
  also have "\<dots> \<le> h * w" using assms by (intro mult_le_mono1) simp
  finally have "4 * (y * w + x + 1) \<le> 4 * (h * w)" by simp
  then show ?thesis by (simp add: algebra_simps)
qed

lemma PixOffset_canvas:
  "PixOffset (canvas w h buf) (int x) (int y) = int (4 * (y * w + x))"
  by (simp add: PixOffset_def canvas_def image_Rect_def algebra_simps)

lemma converted_upto_Suc:
  assumes len: "4 * n + 3 < length buf"
  shows "converted_upto buf (Suc n) =
     (let cur = converted_upto buf n; a = (ucast (cur ! (4 * n + 3)) :: uint32) in
      if a \<noteq> 0 \<and> a \<noteq> 255
      then cur[4 * n := ucast (unpremultiply (ucast (cur ! (4 * n))) a),
               4 * n + 1 := ucast (unpremultiply (ucast (cur ! (4 * n + 1))) a),
               4 * n + 2 := ucast (unpremultiply (ucast (cur ! (4 * n + 2))) a)]
      else cur)"
proof (rule nth_equalityI)
  show "length (converted_upto buf (Suc n)) = length (let cur = converted_upto buf n; a = (ucast (cur ! (4 * n + 3)) :: uint32) in
      if a \<noteq> 0 \<and> a \<noteq> 255
      then cur[4 * n := ucast (unpremultiply (ucast (cur ! (4 * n))) a),
               4 * n + 1 := ucast (unpremultiply (ucast (cur ! (4 * n + 1))) a),
               4 * n + 2 := ucast (unpremultiply (ucast (cur ! (4 * n + 2))) a)]
      else cur)"
    by (simp add: Let_def)
next
  fix j assume "j < length (converted_upto buf (Suc n))"
  then have j: "j < length buf" by simp
  have d: "j div 4 = n \<longleftrightarrow> 4 * n \<le> j \<and> j < 4 * n + 4" by arith
  consider "j < 4 * n" | "j = 4 * n" | "j = 4 * n + 1" | "j = 4 * n + 2" | "j = 4 * n + 3" | "4 * n + 4 \<le> j"
    by arith
  then show "converted_upto buf (Suc n) ! j = (let cur = converted_upto buf n; a = (ucast (cur ! (4 * n + 3)) :: uint32) in
      if a \<noteq> 0 \<and> a \<noteq> 255
      then cur[4 * n := ucast (unpremultiply (ucast (cur ! (4 * n))) a),
               4 * n + 1 := ucast (unpremultiply (ucast (cur ! (4 * n + 1))) a),
               4 * n + 2 := ucast (unpremultiply (ucast (cur ! (4 * n + 2))) a)]
      else cur) ! j"
  proof cases
    case 1 then show ?thesis using j len
      by (simp add: Let_def converted_upto_nth)
  next
    case 2 
    have "j div 4 = n" "j mod 4 = 0" using 2 by presburger+
    then show ?thesis using j len 2
      by (simp add: Let_def converted_upto_nth straight_byte_def ucast_8_32_eq_0 ucast_8_32_eq_255)
  next
    case 3
    have "j div 4 = n" "j mod 4 = 1" using 3 by presburger+
    then show ?thesis using j len 3
      by (simp add: Let_def converted_upto_nth straight_byte_def ucast_8_32_eq_0 ucast_8_32_eq_255)
  next
    case 4
    have "j div 4 = n" "j mod 4 = 2" using 4 by presburger+
    then show ?thesis using j len 4
      by (simp add: Let_def converted_upto_nth straight_byte_def ucast_8_32_eq_0 ucast_8_32_eq_255)
  next
    case 5
    have "j div 4 = n" "j mod 4 = 3" using 5 by presburger+
    then show ?thesis using j len 5
      by (simp add: Let_def converted_upto_nth straight_byte_def ucast_8_32_eq_0 ucast_8_32_eq_255)
  next
    case 6 then show ?thesis using j len
      by (simp add: Let_def converted_upto_nth)
  qed
qed


lemma convert_pixel_at:
  assumes "PixOffset img x y = int m" and "m + 3 < length (Pix img)"
  shows "convert_pixel img x y =
     (let cur = Pix img; a = (ucast (cur ! (m + 3)) :: uint32) in
      if a \<noteq> 0 \<and> a \<noteq> 255
      then Inr (img\<lparr>Pix := cur[m := ucast (unpremultiply (ucast (cur ! m)) a),
               m + 1 := ucast (unpremultiply (ucast (cur ! (m + 1))) a),
               m + 2 := ucast (unpremultiply (ucast (cur ! (m + 2))) a)]\<rparr>)
      else Inr img)"
  using assms by (simp add: convert_pixel_def Let_def)

lemma convert_pixel_canvas:
  assumes len: "length buf = 4 * w * h" and x: "x < w" and y: "y < h"
  shows "convert_pixel (canvas w h (converted_upto buf (y * w + x))) (int x) (int y) =
         Inr (canvas w h (converted_upto buf (Suc (y * w + x))))"
proof -
  define n where "n = y * w + x"
  define m where "m = 4 * n"
  have b: "4 * n + 3 < length buf" using pixel_index_bound[OF x y] len by (simp add: n_def)
  have off: "PixOffset (canvas w h (converted_upto buf n)) (int x) (int y) = int m"
    by (simp add: PixOffset_canvas n_def m_def)
  have pix: "Pix (canvas w h (converted_upto buf n)) = converted_upto buf n"
    by (simp add: canvas_def)
  have inr: "m + 3 < length (Pix (canvas w h (converted_upto buf n)))"
    using b by (simp add: pix m_def)
  have upd: "(canvas w h (converted_upto buf n))\<lparr>Pix := bs\<rparr> = canvas w h bs" for bs
    by (simp add: canvas_def)
  have "convert_pixel (canvas w h (converted_upto buf n)) (int x) (int y) =
        Inr (canvas w h (converted_upto buf (Suc n)))"
    unfolding convert_pixel_at[OF off inr] converted_upto_Suc[OF b] pix upd m_def
    by (simp add: Let_def upd)
  then show ?thesis by (simp add: n_def)
qed

lemma image_Rect_canvas_sel:
  "pt_X (Min_pt (image_Rect 0 0 (int w) (int h))) = 0"
  "pt_Y (Min_pt (image_Rect 0 0 (int w) (int h))) = 0"
  "pt_X (Max_pt (image_Rect 0 0 (int w) (int h))) = int w"
  "pt_Y (Max_pt (image_Rect 0 0 (int w) (int h))) = int h"
  by (simp_all add: image_Rect_def)

lemma convert_row_canvas:
  assumes len: "length buf = 4 * w * h" and y: "y < h"
  shows "x \<le> w \<Longrightarrow>
     convert_row (canvas w h (converted_upto buf (y * w + x)))
        (image_Rect 0 0 (int w) (int h)) (int y) (int x) =
     Inr (canvas w h (converted_upto buf (Suc y * w)))"
proof (induction "w - x" arbitrary: x)
  case 0
  then have "x = w" by simp
  then show ?case
    by (subst convert_row.simps) (simp add: image_Rect_canvas_sel add.commute)
next
  case (Suc k)
  then have x: "x < w" and k: "k = w - Suc x" by simp_all
  have "convert_row (canvas w h (converted_upto buf (y * w + x)))
        (image_Rect 0 0 (int w) (int h)) (int y) (int x) =
      convert_row (canvas w h (converted_upto buf (Suc (y * w + x))))
        (image_Rect 0 0 (int w) (int h)) (int y) (int x + 1)"
    by (subst convert_row.simps) (simp add: x convert_pixel_canvas[OF len x y] image_Rect_canvas_sel)
  also have "\<dots> = convert_row (canvas w h (converted_upto buf (y * w + Suc x)))
        (image_Rect 0 0 (int w) (int h)) (int y) (int (Suc x))"
    by (simp add: add.commute)
  also have "\<dots> = Inr (canvas w h (converted_upto buf (Suc y * w)))"
    using Suc.hyps(1)[OF k] x by simp
  finally show ?case .
qed

lemma convert_rows_canvas:
  assumes len: "length buf = 4 * w * h"
  shows "y \<le> h \<Longrightarrow>
     convert_rows (canvas w h (converted_upto buf (y * w)))
        (image_Rect 0 0 (int w) (int h)) (int y) =
     Inr (canvas w h (converted_upto buf (h * w)))"
proof (induction "h - y" arbitrary: y)
  case 0
  then have "y = h" by simp
  then show ?case
    by (subst convert_rows.simps) (simp add: image_Rect_canvas_sel)
next
  case (Suc k)
  then have y: "y < h" and k: "k = h - Suc y" by simp_all
  have row: "convert_row (canvas w h (converted_upto buf (y * w)))
        (image_Rect 0 0 (int w) (int h)) (int y) 0 =
     Inr (canvas w h (converted_upto buf (Suc y * w)))"
    using convert_row_canvas[OF len y, of 0] by simp
  have "convert_rows (canvas w h (converted_upto buf (y * w)))
        (image_Rect 0 0 (int w) (int h)) (int y) =
      convert_rows (canvas w h (converted_upto buf (Suc y * w)))
        (image_Rect 0 0 (int w) (int h)) (int y + 1)"
    by (subst convert_rows.simps) (simp add: y row image_Rect_canvas_sel)
  also have "\<dots> = convert_rows (canvas w h (converted_upto buf (Suc y * w)))
        (image_Rect 0 0 (int w) (int h)) (int (Suc y))"
    by (simp add: add.commute)
  also have "\<dots> = Inr (canvas w h (converted_upto buf (h * w)))"
    using Suc.hyps(1)[OF k] y by simp
  finally show ?case .
qed

lemma converted_upto_all:
  "length buf = 4 * w * h \<Longrightarrow> converted_upto buf (h * w) = straight buf"
  by (simp add: converted_upto_def straight_def mult.commute mult.left_commute)

lemma convertFromPremultiplied_canvas:
  assumes len: "length buf = 4 * w * h"
  shows "convertFromPremultiplied (canvas w h buf) = Inr (canvas w h (straight buf))"
proof -
  have z: "converted_upto buf 0 = buf"
    by (simp add: converted_upto_def map_nth)
  have "convert_rows (canvas w h (converted_upto buf (0 * w)))
        (image_Rect 0 0 (int w) (int h)) (int 0) =
     Inr (canvas w h (converted_upto buf (h * w)))"
    by (rule convert_rows_canvas[OF len]) simp
  then show ?thesis
    by (simp add: convertFromPremultiplied_def z converted_upto_all[OF len] canvas_def image_Rect_def)
qed


lemma unat_ucast_32_8: "unat (w :: uint32) \<le> 255 \<Longrightarrow> unat (ucast w :: uint8) = unat w"
  by (simp add: unsigned_ucast_eq take_bit_nat_eq_self)

lemma unat_unpremultiply32:
  fixes c a :: uint8
  shows "unat (unpremultiply (ucast c) (ucast a)) = min 255 (unat c * 255 div unat a)"
proof -
  have cb: "unat c < 256" using unsigned_less[of c, where 'a=nat] by simp
  have m: "unat ((ucast c :: uint32) * 255) = unat c * 255"
    using cb by (simp add: unat_word_ariths unat_ucast_8_32)
  have d: "unat (((ucast c :: uint32) * 255) div ucast a) = unat c * 255 div unat a"
    by (simp add: unat_div m unat_ucast_8_32)
  show ?thesis
    unfolding unpremultiply_def Let_def
    by (simp add: word_less_nat_alt d min_def)
qed

lemma unat_unpremultiply:
  fixes c a :: uint8
  shows "unat (ucast (unpremultiply (ucast c) (ucast a)) :: uint8) =
         min 255 (unat c * 255 div unat a)"
  by (simp add: unat_ucast_32_8 unat_unpremultiply32)

lemma length_straight [simp]: "length (straight buf) = length buf"
  by (simp add: straight_def)

lemma straight_nth: "j < length buf \<Longrightarrow> straight buf ! j = straight_byte buf j"
  by (simp add: straight_def)

lemma canvas_sel [simp]:
  "Pix (canvas w h buf) = buf"
  "Stride (canvas w h buf) = 4 * int w"
  "Rect (canvas w h buf) = image_Rect 0 0 (int w) (int h)"
  by (simp_all add: canvas_def)

text \<open>The bytes of the pixel at \<open>(x, y)\<close> after the pass.\<close>

lemma straight_pixel:
  assumes len: "length buf = 4 * w * h" and x: "x < w" and y: "y < h"
    and i: "i = nat (PixOffset (canvas w h buf) (int x) (int y))"
  shows "i + 3 < length buf"
    and "straight buf ! (i + 3) = buf ! (i + 3)"
    and "k < 3 \<Longrightarrow> buf ! (i + 3) = 0 \<or> buf ! (i + 3) = 255 \<Longrightarrow>
           straight buf ! (i + k) = buf ! (i + k)"
    and "k < 3 \<Longrightarrow> buf ! (i + 3) \<noteq> 0 \<Longrightarrow> buf ! (i + 3) \<noteq> 255 \<Longrightarrow>
           unat (straight buf ! (i + k)) =
           min 255 (unat (buf ! (i + k)) * 255 div unat (buf ! (i + 3)))"
proof -
  have i4: "i = 4 * (y * w + x)" unfolding i PixOffset_canvas by (rule nat_int)
  show b: "i + 3 < length buf" using pixel_index_bound[OF x y] len by (simp add: i4)
  have d3: "(i + 3) div 4 = y * w + x" "(i + 3) mod 4 = 3" unfolding i4 by presburger+
  show "straight buf ! (i + 3) = buf ! (i + 3)"
    using b by (simp add: straight_nth straight_byte_def d3)
  have dk: "(i + k) div 4 = y * w + x" "(i + k) mod 4 = k" if "k < 3" for k
    using that unfolding i4 by presburger+
  have a: "4 * ((i + k) div 4) + 3 = i + 3" if "k < 3" for k
    using dk(1)[OF that] by (simp add: i4)
  have sb: "straight_byte buf (i + k) =
      (if buf ! (i + 3) \<noteq> 0 \<and> buf ! (i + 3) \<noteq> 255
       then ucast (unpremultiply (ucast (buf ! (i + k))) (ucast (buf ! (i + 3))))
       else buf ! (i + k))" if "k < 3" for k
    unfolding straight_byte_def a[OF that] Let_def using that by (simp add: dk(2))
  show "straight buf ! (i + k) = buf ! (i + k)"
    if "k < 3" "buf ! (i + 3) = 0 \<or> buf ! (i + 3) = 255"
    using that b by (auto simp add: straight_nth sb)
  show "unat (straight buf ! (i + k)) =
           min 255 (unat (buf ! (i + k)) * 255 div unat (buf ! (i + 3)))"
    if "k < 3" "buf ! (i + 3) \<noteq> 0" "buf ! (i + 3) \<noteq> 255"
    using that b by (simp add: straight_nth sb unat_unpremultiply)
qed

section \<open>The alpha conversion: boundary alphas, the alpha channel, the round trip\<close>

text \<open>
  C8. On the image of a render call, a pixel whose alpha byte is 0 or 255 keeps its
  R, G and B bytes through the alpha-conversion pass.
\<close>

theorem boundary_alpha_keeps_rgb:
  assumes "length buf = 4 * w * h" and "x < w" and "y < h"
    and "i = nat (PixOffset (canvas w h buf) (int x) (int y))"
    and "buf ! (i + 3) = 0 \<or> buf ! (i + 3) = 255"
  shows "\<exists>img. convertFromPremultiplied (canvas w h buf) = Inr img \<and>
           Pix img ! i = buf ! i \<and>
           Pix img ! (i + 1) = buf ! (i + 1) \<and>
           Pix img ! (i + 2) = buf ! (i + 2)"
proof -
  have "straight buf ! (i + k) = buf ! (i + k)" if "k < 3" for k
    using straight_pixel(3)[OF assms(1-4) that assms(5)] .
  from this[of 0] this[of 1] this[of 2] show ?thesis
    by (simp add: convertFromPremultiplied_canvas[OF assms(1)])
qed

theorem boundary_alpha_keeps_rgb_witness:
  "\<exists>img. convertFromPremultiplied (canvas 2 1 [10, 20, 30, 255, 40, 50, 60, 0]) = Inr img \<and>
     Pix img ! 4 = 40 \<and> Pix img ! 5 = 50 \<and> Pix img ! 6 = 60"
proof -
  let ?buf = "[10, 20, 30, 255, 40, 50, 60, 0] :: uint8 list"
  have len: "length ?buf = 4 * 2 * 1" by simp
  have i: "4 = nat (PixOffset (canvas 2 1 ?buf) (int 1) (int 0))"
    unfolding PixOffset_canvas by simp
  have a: "?buf ! (4 + 3) = 0 \<or> ?buf ! (4 + 3) = 255" by simp
  have x: "(1::nat) < 2" and y: "(0::nat) < 1" by simp_all
  from boundary_alpha_keeps_rgb [OF len x y i a] show ?thesis by simp
qed

text \<open>
  C9. The alpha-conversion pass never changes an alpha byte: on the image of a render
  call every pixel has the alpha it had before, every byte at an offset \<open>4 n + 3\<close> is
  kept, and the length of the buffer, the stride and the bounds are kept.
\<close>

theorem alpha_bytes_kept:
  assumes "length buf = 4 * w * h"
  shows "\<exists>img. convertFromPremultiplied (canvas w h buf) = Inr img \<and>
           length (Pix img) = length buf \<and> Stride img = 4 * int w \<and>
           Rect img = image_Rect 0 0 (int w) (int h) \<and>
           (\<forall>x y. x < w \<and> y < h \<longrightarrow>
              Pix img ! (nat (PixOffset (canvas w h buf) (int x) (int y)) + 3) =
              buf ! (nat (PixOffset (canvas w h buf) (int x) (int y)) + 3)) \<and>
           (\<forall>j < length buf. j mod 4 = 3 \<longrightarrow> Pix img ! j = buf ! j)"
proof -
  have "straight buf ! (nat (PixOffset (canvas w h buf) (int x) (int y)) + 3) =
        buf ! (nat (PixOffset (canvas w h buf) (int x) (int y)) + 3)"
    if "x < w" "y < h" for x y
    using straight_pixel(2)[OF assms that refl] .
  moreover have "straight buf ! j = buf ! j" if "j < length buf" "j mod 4 = 3" for j
    using that by (simp add: straight_nth straight_byte_def)
  ultimately show ?thesis
    by (simp add: convertFromPremultiplied_canvas[OF assms])
qed

theorem alpha_bytes_kept_witness:
  "\<exists>img. convertFromPremultiplied (canvas 1 1 [2, 4, 6, 7]) = Inr img \<and>
     length (Pix img) = 4 \<and> Pix img ! 3 = 7"
proof -
  let ?buf = "[2, 4, 6, 7] :: uint8 list"
  have len: "length ?buf = 4 * 1 * 1" by simp
  from alpha_bytes_kept [OF len] obtain img where
    c: "convertFromPremultiplied (canvas 1 1 ?buf) = Inr img" and l: "length (Pix img) = length ?buf"
    and m: "\<forall>j < length ?buf. j mod 4 = 3 \<longrightarrow> Pix img ! j = ?buf ! j"
    by blast
  from m have "Pix img ! 3 = ?buf ! 3" by simp
  with c l show ?thesis by simp
qed

text \<open>
  C3. For a pixel with alpha \<open>0 < a < 255\<close> and a colour byte \<open>c \<le> a\<close>, the byte the pass
  stores is \<open>c * 255 div a\<close>, at most 255, and multiplying it back by \<open>a / 255\<close> and
  rounding gives \<open>c\<close> or \<open>c - 1\<close>.
\<close>

theorem unpremultiply_round_trip:
  assumes "length buf = 4 * w * h" and "x < w" and "y < h"
    and "i = nat (PixOffset (canvas w h buf) (int x) (int y))"
    and "k < 3"
    and "0 < buf ! (i + 3)" and "buf ! (i + 3) < 255"
    and "buf ! (i + k) \<le> buf ! (i + 3)"
  shows "\<exists>img. convertFromPremultiplied (canvas w h buf) = Inr img \<and>
           unat (Pix img ! (i + k)) = unat (buf ! (i + k)) * 255 div unat (buf ! (i + 3)) \<and>
           unat (Pix img ! (i + k)) \<le> 255 \<and>
           \<bar>round (of_nat (unat (Pix img ! (i + k)) * unat (buf ! (i + 3))) / (255 :: rat))
              - int (unat (buf ! (i + k)))\<bar> \<le> 1"
proof -
  define c where "c = unat (buf ! (i + k))"
  define a where "a = unat (buf ! (i + 3))"
  define r where "r = unat (straight buf ! (i + k))"
  have a0: "0 < a" using assms(6) by (simp add: a_def word_less_nat_alt)
  have a255: "a < 255" using assms(7) by (simp add: a_def word_less_nat_alt)
  have ca: "c \<le> a" using assms(8) by (simp add: a_def c_def word_le_nat_alt)
  have ne: "buf ! (i + 3) \<noteq> 0" "buf ! (i + 3) \<noteq> 255" using assms(6,7) by auto
  have r: "r = min 255 (c * 255 div a)"
    unfolding r_def c_def a_def using straight_pixel(4)[OF assms(1-5) ne] .
  have "c * 255 div a \<le> a * 255 div a" using ca by (intro div_le_mono) simp
  then have le: "c * 255 div a \<le> 255" using a0 by simp
  then have r': "r = c * 255 div a" using r by simp
  have up: "r * a \<le> c * 255" unfolding r' by simp
  have lo: "c * 255 < r * a + a"
    unfolding r' using dividend_less_div_times[OF a0, of "c * 255"] by (simp add: add.commute)
  have "(of_nat (r * a) :: rat) \<le> of_nat (c * 255)" using up by (simp only: of_nat_le_iff)
  then have up': "(of_nat (r * a) :: rat) / 255 \<le> of_nat c" by simp
  have "(of_nat (c * 255) :: rat) < of_nat (r * a + a)" using lo by (simp only: of_nat_less_iff)
  moreover have "(of_nat a :: rat) < 255" using a255 by simp
  ultimately have lo': "(of_nat c :: rat) - 1 < of_nat (r * a) / 255" by simp
  have "round (of_nat (r * a) / (255 :: rat)) \<le> int c"
    using up' by (simp add: round_def floor_le_iff) 
  moreover have "int c - 1 \<le> round (of_nat (r * a) / (255 :: rat))"
    using lo' by (simp add: round_def le_floor_iff)
  ultimately have "\<bar>round (of_nat (r * a) / (255 :: rat)) - int c\<bar> \<le> 1" by simp
  moreover have "r \<le> 255" using r by simp
  ultimately show ?thesis
    using r' by (simp add: convertFromPremultiplied_canvas[OF assms(1)] r_def a_def c_def)
qed

theorem unpremultiply_round_trip_witness:
  "\<exists>img. convertFromPremultiplied (canvas 1 1 [2, 4, 6, 7]) = Inr img \<and>
     unat (Pix img ! 1) = 4 * 255 div 7 \<and>
     unat (Pix img ! 1) \<le> 255 \<and>
     \<bar>round (of_nat (unat (Pix img ! 1) * 7) / (255 :: rat)) - 4\<bar> \<le> 1"
proof -
  let ?buf = "[2, 4, 6, 7] :: uint8 list"
  have len: "length ?buf = 4 * 1 * 1" by simp
  have i: "0 = nat (PixOffset (canvas 1 1 ?buf) (int 0) (int 0))"
    unfolding PixOffset_canvas by simp
  have x: "(0::nat) < 1" and k: "(1::nat) < 3" by simp_all
  have a0: "0 < ?buf ! (0 + 3)" and a1: "?buf ! (0 + 3) < 255"
    and c: "?buf ! (0 + 1) \<le> ?buf ! (0 + 3)" by simp_all
  from unpremultiply_round_trip [OF len x x i k a0 a1 c] show ?thesis by simp
qed

section \<open>The wrapper: calls made and results returned\<close>

lemma bind_Inr [simp]: "bind (cs, Inr x) f = (cs @ fst (f x), snd (f x))"
  by (simp add: bind_def split: prod.splits)

lemma bind_Inl [simp]: "bind (cs, Inl e) f = (cs, Inl e)"
  by (simp add: bind_def)

lemma deferred_pair [simp]: "deferred ds (cs, r) = (cs @ ds, r)"
  by (simp add: deferred_def)

lemma fst_deferred [simp]: "fst (deferred ds m) = fst m @ ds"
  by (cases m) simp

lemma snd_deferred [simp]: "snd (deferred ds m) = snd m"
  by (cases m) simp

lemma length_stored [simp]: "length (stored old new) = length old"
  by (simp add: stored_def)




lemma ParseFromData_ok:
  assumes "data \<noteq> []" and "resvg_parse_tree_from_data lib data (cOpts ops) = (RESVG_OK lib, tree)"
  shows "ParseFromData lib data (Some ops) = ([Call_parse_tree_from_data data], Inr \<lparr>cTree = tree\<rparr>)"
  using assms by (simp add: ParseFromData_def cErrorToGoError_def)

lemma cErrorToGoError_cases:
  "cErrorToGoError lib r \<in> {None, Some ErrNotUTF8, Some ErrFileOpenFailed, Some ErrMalformedGzip,
     Some ErrElementsLimit, Some ErrInvalidSize, Some ErrParsingFailed, Some (ErrUnknownResvg (sint r))}"
  by (simp add: cErrorToGoError_def)

lemma ParseFromData_not_no_renderable:
  "snd (ParseFromData lib data ops) \<noteq> Inl ErrNoRenderableElements"
  using cErrorToGoError_cases[of lib "fst (resvg_parse_tree_from_data lib data (cOpts (the ops)))"]
  by (auto simp add: ParseFromData_def split: option.splits prod.splits)

lemma convenience_prefix:
  "bind (NewOptions lib) (\<lambda>opts0. bind (LoadSystemFonts lib opts0) (\<lambda>opts. k opts)) =
   (Call_options_create # Call_options_load_system_fonts # fst (k (system_options lib)),
    snd (k (system_options lib)))"
  by (simp add: NewOptions_def LoadSystemFonts_def system_options_def)

text \<open>The three convenience functions once the document has parsed.\<close>

lemma Render_parsed:
  assumes "data \<noteq> []"
    and "resvg_parse_tree_from_data lib data (cOpts (system_options lib)) = (RESVG_OK lib, tree)"
  shows "Render lib data =
     (let t = \<lparr>cTree = tree\<rparr>;
          rest =
            (if resvg_is_image_empty lib tree then ([], Inl ErrNoRenderableElements)
             else
               bind (GetImageSize lib t) (\<lambda>size.
                 if float_le_zero (Width size) \<or> float_le_zero (Height size)
                 then ([], Inl ErrInvalidDimensions)
                 else
                   bind (IdentityTransform lib) (\<lambda>ident.
                     RenderTree_Render lib t ident
                       (uint32_of_float32 (uint32_out_of_range lib) (Width size))
                       (uint32_of_float32 (uint32_out_of_range lib) (Height size)))))
      in ([Call_options_create, Call_options_load_system_fonts, Call_parse_tree_from_data data,
           Call_is_image_empty] @ fst rest @ RenderTree_destroy t @ Options_destroy (system_options lib),
          snd rest))"
  unfolding Render_def convenience_prefix
  by (simp add: ParseFromData_ok[OF assms] IsEmpty_def Let_def)

lemma RenderWithSize_parsed:
  assumes "data \<noteq> []"
    and "resvg_parse_tree_from_data lib data (cOpts (system_options lib)) = (RESVG_OK lib, tree)"
  shows "RenderWithSize lib data width height =
     (let t = \<lparr>cTree = tree\<rparr>;
          rest =
            (if resvg_is_image_empty lib tree then ([], Inl ErrNoRenderableElements)
             else
               bind (IdentityTransform lib) (\<lambda>ident.
                 RenderTree_Render lib t ident width height))
      in ([Call_options_create, Call_options_load_system_fonts, Call_parse_tree_from_data data,
           Call_is_image_empty] @ fst rest @ RenderTree_destroy t @ Options_destroy (system_options lib),
          snd rest))"
  unfolding RenderWithSize_def convenience_prefix
  by (simp add: ParseFromData_ok[OF assms] IsEmpty_def Let_def)

lemma RenderScaledToSize_parsed:
  assumes "data \<noteq> []"
    and "resvg_parse_tree_from_data lib data (cOpts (system_options lib)) = (RESVG_OK lib, tree)"
  shows "RenderScaledToSize lib data width height =
     (let t = \<lparr>cTree = tree\<rparr>;
          rest =
            (if resvg_is_image_empty lib tree then ([], Inl ErrNoRenderableElements)
             else
               bind (GetImageSize lib t) (\<lambda>naturalSize.
                 if float_le_zero (Width naturalSize) \<or> float_le_zero (Height naturalSize)
                 then ([], Inl ErrInvalidNaturalDimensions)
                 else
                   RenderTree_Render lib t
                     (fit_transform
                        (fit (Width naturalSize) (Height naturalSize)
                           (float64_of_uint32 width) (float64_of_uint32 height)))
                     width height))
      in ([Call_options_create, Call_options_load_system_fonts, Call_parse_tree_from_data data,
           Call_is_image_empty] @ fst rest @ RenderTree_destroy t @ Options_destroy (system_options lib),
          snd rest))"
  unfolding RenderScaledToSize_def convenience_prefix
  by (simp add: ParseFromData_ok[OF assms] IsEmpty_def Let_def)

text \<open>
  C5. \<open>ParseFromData\<close> on an empty input returns the empty-data error and no tree, and
  has made no call into the library, whatever the options pointer is.
\<close>

theorem ParseFromData_empty_input:
  "ParseFromData lib [] opts = ([], Inl ErrEmptyData)"
  by (simp add: ParseFromData_def)

text \<open>
  C6. When the document parses and the library reports it empty, \<open>Render\<close>,
  \<open>RenderWithSize\<close> and \<open>RenderScaledToSize\<close> each end with the
  no-renderable-elements error after the emptiness query, release the tree and the
  options, return no image and never ask the library to render; \<open>ParseFromData\<close>
  returned the tree, and it returns that error for no input at all.
\<close>

theorem empty_document_not_rendered:
  assumes "data \<noteq> []"
    and "resvg_parse_tree_from_data lib data (cOpts (system_options lib)) = (RESVG_OK lib, tree)"
    and "resvg_is_image_empty lib tree"
  shows "ParseFromData lib data (Some (system_options lib)) =
           ([Call_parse_tree_from_data data], Inr \<lparr>cTree = tree\<rparr>) \<and>
         (\<forall>data' opts'. snd (ParseFromData lib data' opts') \<noteq> Inl ErrNoRenderableElements) \<and>
         Render lib data =
           ([Call_options_create, Call_options_load_system_fonts, Call_parse_tree_from_data data,
             Call_is_image_empty] @ RenderTree_destroy \<lparr>cTree = tree\<rparr> @
              Options_destroy (system_options lib),
            Inl ErrNoRenderableElements) \<and>
         RenderWithSize lib data width height = Render lib data \<and>
         RenderScaledToSize lib data width height = Render lib data"
  using assms(3)
  by (simp add: Render_parsed[OF assms(1,2)] RenderWithSize_parsed[OF assms(1,2)]
      RenderScaledToSize_parsed[OF assms(1,2)] ParseFromData_ok[OF assms(1,2)]
      ParseFromData_not_no_renderable)

lemma toy_system_options: "system_options toy = \<lparr>cOpts = Some ()\<rparr>"
  by (simp add: system_options_def toy_def)

theorem empty_document_not_rendered_witness:
  "ParseFromData toy [3, 2] (Some (system_options toy)) =
     ([Call_parse_tree_from_data [3, 2]], Inr \<lparr>cTree = Some [3, 2]\<rparr>) \<and>
   Render toy [3, 2] =
     ([Call_options_create, Call_options_load_system_fonts, Call_parse_tree_from_data [3, 2],
       Call_is_image_empty, Call_tree_destroy, Call_options_destroy],
      Inl ErrNoRenderableElements) \<and>
   RenderWithSize toy [3, 2] 3 2 = Render toy [3, 2] \<and>
   RenderScaledToSize toy [3, 2] 3 2 = Render toy [3, 2]"
proof -
  have d: "[3, 2] \<noteq> ([] :: uint8 list)" by simp
  have p: "resvg_parse_tree_from_data toy [3, 2] (cOpts (system_options toy)) =
           (RESVG_OK toy, Some [3, 2])"
    by (simp add: toy_def)
  have e: "resvg_is_image_empty toy (Some [3, 2])" by (simp add: toy_def)
  from empty_document_not_rendered [OF d p e, of 3 2] show ?thesis
    by (simp add: RenderTree_destroy_def Options_destroy_def toy_system_options)
qed



lemma RenderTree_Render_calls:
  "set (fst (RenderTree_Render lib t transform width height)) \<subseteq> {Call_render transform width height}"
  by (cases "NewRGBA (image_Rect 0 0 (uint width) (uint height))")
     (simp_all add: RenderTree_Render_def)

lemma destroy_calls:
  "Call_get_image_size \<notin> set (RenderTree_destroy t)"
  "Call_get_image_size \<notin> set (Options_destroy ops)"
  by (simp_all add: RenderTree_destroy_def Options_destroy_def)






text \<open>
  C10. Once the document has parsed and is not empty, \<open>RenderWithSize\<close> fetches the
  identity transform and returns what \<open>Render\<close> of the tree gives for that transform
  and the requested width and height; it never asks for the natural size. \<open>Render\<close>
  asks for it and ends with the invalid-dimensions error when a component is not
  positive.
\<close>

theorem RenderWithSize_identity_unchecked:
  assumes "data \<noteq> []"
    and "resvg_parse_tree_from_data lib data (cOpts (system_options lib)) = (RESVG_OK lib, tree)"
    and "\<not> resvg_is_image_empty lib tree"
  shows "RenderWithSize lib data width height =
           (let r = RenderTree_Render lib \<lparr>cTree = tree\<rparr> (resvg_transform_identity lib)
                      width height
            in ([Call_options_create, Call_options_load_system_fonts,
                 Call_parse_tree_from_data data, Call_is_image_empty, Call_transform_identity] @
                fst r @ RenderTree_destroy \<lparr>cTree = tree\<rparr> @ Options_destroy (system_options lib),
                snd r)) \<and>
         Call_get_image_size \<notin> set (fst (RenderWithSize lib data width height)) \<and>
         Render lib data =
           (let size = resvg_get_image_size lib tree
            in if float_le_zero (fst size) \<or> float_le_zero (snd size)
               then ([Call_options_create, Call_options_load_system_fonts,
                      Call_parse_tree_from_data data, Call_is_image_empty, Call_get_image_size] @
                     RenderTree_destroy \<lparr>cTree = tree\<rparr> @ Options_destroy (system_options lib),
                     Inl ErrInvalidDimensions)
               else
                 let r = RenderTree_Render lib \<lparr>cTree = tree\<rparr> (resvg_transform_identity lib)
                           (uint32_of_float32 (uint32_out_of_range lib) (fst size))
                           (uint32_of_float32 (uint32_out_of_range lib) (snd size))
                 in ([Call_options_create, Call_options_load_system_fonts,
                      Call_parse_tree_from_data data, Call_is_image_empty, Call_get_image_size,
                      Call_transform_identity] @
                     fst r @ RenderTree_destroy \<lparr>cTree = tree\<rparr> @
                     Options_destroy (system_options lib),
                     snd r))"
proof -
  have a: "RenderWithSize lib data width height =
           (let r = RenderTree_Render lib \<lparr>cTree = tree\<rparr> (resvg_transform_identity lib)
                      width height
            in ([Call_options_create, Call_options_load_system_fonts,
                 Call_parse_tree_from_data data, Call_is_image_empty, Call_transform_identity] @
                fst r @ RenderTree_destroy \<lparr>cTree = tree\<rparr> @ Options_destroy (system_options lib),
                snd r))"
    using assms(3)
    by (simp add: RenderWithSize_parsed[OF assms(1,2)] IdentityTransform_def Let_def)
  have b: "Call_get_image_size \<notin> set (fst (RenderWithSize lib data width height))"
    unfolding a using RenderTree_Render_calls[of lib "\<lparr>cTree = tree\<rparr>" "resvg_transform_identity lib" width height]
    by (auto simp add: Let_def destroy_calls)
  have c: "Render lib data =
           (let size = resvg_get_image_size lib tree
            in if float_le_zero (fst size) \<or> float_le_zero (snd size)
               then ([Call_options_create, Call_options_load_system_fonts,
                      Call_parse_tree_from_data data, Call_is_image_empty, Call_get_image_size] @
                     RenderTree_destroy \<lparr>cTree = tree\<rparr> @ Options_destroy (system_options lib),
                     Inl ErrInvalidDimensions)
               else
                 let r = RenderTree_Render lib \<lparr>cTree = tree\<rparr> (resvg_transform_identity lib)
                           (uint32_of_float32 (uint32_out_of_range lib) (fst size))
                           (uint32_of_float32 (uint32_out_of_range lib) (snd size))
                 in ([Call_options_create, Call_options_load_system_fonts,
                      Call_parse_tree_from_data data, Call_is_image_empty, Call_get_image_size,
                      Call_transform_identity] @
                     fst r @ RenderTree_destroy \<lparr>cTree = tree\<rparr> @
                     Options_destroy (system_options lib),
                     snd r))"
    using assms(3)
    by (simp add: Render_parsed[OF assms(1,2)] IdentityTransform_def GetImageSize_def Let_def
        split: prod.splits)
  from a b c show ?thesis by blast
qed

theorem RenderWithSize_identity_unchecked_witness:
  "RenderWithSize toy [1, 1, 2, 4, 6, 7] 1 1 =
     ([Call_options_create, Call_options_load_system_fonts,
       Call_parse_tree_from_data [1, 1, 2, 4, 6, 7], Call_is_image_empty, Call_transform_identity,
       Call_render (resvg_transform_identity toy) 1 1, Call_tree_destroy, Call_options_destroy],
      Inr (canvas 1 1 [72, 145, 218, 7])) \<and>
   Call_get_image_size \<notin> set (fst (RenderWithSize toy [1, 1, 2, 4, 6, 7] 1 1))"
proof -
  let ?data = "[1, 1, 2, 4, 6, 7] :: uint8 list"
  have d: "?data \<noteq> []" by simp
  have p: "resvg_parse_tree_from_data toy ?data (cOpts (system_options toy)) =
           (RESVG_OK toy, Some ?data)"
    by (simp add: toy_def)
  have e: "\<not> resvg_is_image_empty toy (Some ?data)" by (simp add: toy_def)
  have r: "RenderTree_Render toy \<lparr>cTree = Some ?data\<rparr> (resvg_transform_identity toy) 1 1 =
     ([Call_render (resvg_transform_identity toy) 1 1], Inr (canvas 1 1 [72, 145, 218, 7]))"
    by code_simp
  from RenderWithSize_identity_unchecked [OF d p e, of 1 1] show ?thesis
    by (simp add: r RenderTree_destroy_def Options_destroy_def toy_system_options)
qed




section \<open>The rounding of the floating-point model\<close>

text \<open>\<open>bit_length\<close> and \<open>ilog2\<close> compute what their names say.\<close>

lemma bit_length_pos: "0 < n \<Longrightarrow> 1 \<le> bit_length n"
proof (induction n rule: bit_length.induct)
  case (1 n)
  have "0 \<le> bit_length (n div 2)"
  proof (cases "0 < n div 2")
    case True
    with 1 show ?thesis by simp
  next
    case False
    then show ?thesis by (subst bit_length.simps) simp
  qed
  with 1(2) show ?case by (subst bit_length.simps) simp
qed

lemma bit_length_bounds:
  "0 < n \<Longrightarrow> 2 ^ nat (bit_length n - 1) \<le> n \<and> n < 2 ^ nat (bit_length n)"
proof (induction n rule: bit_length.induct)
  case (1 n)
  have bl: "bit_length n = 1 + bit_length (n div 2)"
    using 1(2) by (subst bit_length.simps) simp
  show ?case
  proof (cases "0 < n div 2")
    case False
    then have n1: "n = 1" using 1(2) by presburger
    have "bit_length (n div 2) = 0" using False by (subst bit_length.simps) simp
    then have b1: "bit_length n = 1" by (simp add: bl)
    show ?thesis unfolding b1 using n1 by simp
  next
    case True
    define m where "m = bit_length (n div 2)"
    have m1: "1 \<le> m" unfolding m_def by (rule bit_length_pos[OF True])
    have ih: "2 ^ nat (m - 1) \<le> n div 2" "n div 2 < 2 ^ nat m"
      using 1(1) 1(2) True unfolding m_def by simp_all
    have sm: "nat m = Suc (nat (m - 1))" using m1 by simp
    have e: "(2::int) ^ nat m = 2 * 2 ^ nat (m - 1)"
      by (simp only: sm power_Suc)
    have sm2: "nat (1 + m) = Suc (nat m)" using m1 by simp
    have e2: "(2::int) ^ nat (1 + m) = 2 * 2 ^ nat m"
      by (simp only: sm2 power_Suc)
    have d1: "2 * (n div 2) \<le> n" and d2: "n < 2 * (n div 2) + 2" by presburger+
    have lo: "2 ^ nat m \<le> n" using ih(1) d1 unfolding e by linarith
    have hi: "n < 2 * 2 ^ nat m" using ih(2) d2 by linarith
    have "bit_length n - 1 = m" by (simp add: bl m_def)
    then show ?thesis using lo hi by (simp add: bl m_def[symmetric] e2)
  qed
qed

lemma ilog2_bounds:
  assumes "0 < q"
  shows "2 powi (ilog2 q) \<le> q \<and> q < 2 powi (ilog2 q + 1)"
proof (cases "1 \<le> q")
  case True
  define n where "n = \<lfloor>q\<rfloor>"
  have n: "0 < n" using True by (simp add: n_def)
  have k: "ilog2 q = bit_length n - 1" using True by (simp add: ilog2_def n_def)
  note b = bit_length_bounds[OF n] bit_length_pos[OF n]
  have "(2::rat) powi (bit_length n - 1) = of_int (2 ^ nat (bit_length n - 1))"
    using b(2) by (simp add: power_int_def)
  also have "\<dots> \<le> of_int n" using b(1) by (simp only: of_int_le_iff)
  also have "\<dots> \<le> q" by (simp add: n_def)
  finally have lo: "2 powi (ilog2 q) \<le> q" by (simp add: k)
  have "q < of_int (n + 1)" unfolding n_def by linarith
  also have "\<dots> \<le> of_int (2 ^ nat (bit_length n))"
    using b(1) by (simp only: of_int_le_iff) simp
  also have "\<dots> = (2::rat) powi (bit_length n)"
    using b(2) by (simp add: power_int_def)
  finally have "q < 2 powi (ilog2 q + 1)" by (simp add: k)
  with lo show ?thesis ..
next
  case False
  define r where "r = 1 / q"
  define n where "n = \<lceil>r\<rceil> - 1"
  define m where "m = bit_length n"
  have r1: "1 < r" using False assms by (simp add: r_def)
  have n: "0 < n" using r1 by (simp add: n_def less_ceiling_iff)
  have k: "ilog2 q = - m" using False by (simp add: ilog2_def n_def m_def r_def)
  note b = bit_length_bounds[OF n, folded m_def] bit_length_pos[OF n, folded m_def]
  have pm: "(2::rat) powi m = of_int (2 ^ nat m)" using b(2) by (simp add: power_int_def)
  have pm1: "(2::rat) powi (m - 1) = of_int (2 ^ nat (m - 1))"
    using b(2) by (simp add: power_int_def)
  have "r \<le> of_int (n + 1)" unfolding n_def by simp
  also have "\<dots> \<le> of_int (2 ^ nat m)" using b(1) by (simp only: of_int_le_iff) simp
  finally have "r \<le> 2 powi m" by (simp add: pm)
  then have "1 / (2 powi m) \<le> 1 / r"
    using r1 by (intro divide_left_mono) (simp_all add: pm)
  then have lo: "2 powi (ilog2 q) \<le> q"
    using assms by (simp add: k r_def power_int_minus field_simps)
  have "of_int (2 ^ nat (m - 1)) \<le> (of_int n :: rat)" using b(1) by (simp only: of_int_le_iff)
  also have "of_int n < r" unfolding n_def by linarith
  finally have "2 powi (m - 1) < r" by (simp add: pm1)
  then have "1 / r < 1 / (2 powi (m - 1))"
    by (intro divide_strict_left_mono) (simp_all add: pm1 r_def assms)
  then have "q < 2 powi (1 - m)"
    using assms by (simp add: r_def power_int_minus[symmetric] inverse_eq_divide[symmetric])
  then have "q < 2 powi (ilog2 q + 1)" by (simp add: k add.commute)
  with lo show ?thesis ..
qed


lemma round_half_even_nearest: "\<bar>of_int (round_half_even x) - x\<bar> \<le> 1 / 2"
proof -
  have "of_int \<lfloor>x\<rfloor> \<le> x" "x < of_int \<lfloor>x\<rfloor> + 1" by linarith+
  then show ?thesis
    by (auto simp add: round_half_even_def Let_def abs_le_iff)
qed

text \<open>
  A finite result of \<open>round_to_format\<close> is a multiple of the spacing at \<open>q\<close> and lies
  within half that spacing of \<open>q\<close>.
\<close>

lemma round_to_format_nearest:
  assumes "round_to_format p emin emax q = Finite y"
  shows "\<exists>m. y = of_int m * 2 powi (max (ilog2 \<bar>q\<bar>) emin - p + 1) \<and>
             \<bar>y - q\<bar> \<le> 2 powi (max (ilog2 \<bar>q\<bar>) emin - p + 1) / 2"
proof (cases "q = 0")
  case True
  with assms have "y = 0" by (simp add: round_to_format_def)
  with True show ?thesis by (intro exI[of _ 0]) simp
next
  case False
  define u :: rat where "u = 2 powi (max (ilog2 \<bar>q\<bar>) emin - p + 1)"
  define m where "m = round_half_even (q / u)"
  have u: "0 < u" by (simp add: u_def)
  have y: "y = of_int m * u"
    using assms False
    by (simp add: round_to_format_def Let_def u_def m_def signed_zero_def signed_inf_def
        split: if_splits)
  have "\<bar>of_int m - q / u\<bar> \<le> 1 / 2" unfolding m_def by (rule round_half_even_nearest)
  then have "\<bar>of_int m - q / u\<bar> * u \<le> 1 / 2 * u" using u by (intro mult_right_mono) simp_all
  moreover have "\<bar>of_int m - q / u\<bar> * u = \<bar>of_int m * u - q\<bar>"
  proof -
    have "\<bar>of_int m - q / u\<bar> * u = \<bar>(of_int m - q / u) * u\<bar>"
      using u by (simp add: abs_mult)
    also have "(of_int m - q / u) * u = of_int m * u - q"
      using u by (simp add: left_diff_distrib)
    finally show ?thesis .
  qed
  ultimately have "\<bar>y - q\<bar> \<le> u / 2" by (simp add: y)
  with y show ?thesis unfolding u_def by blast
qed

lemma round64_one_tenth: "round64 (1 / 10) = Finite (3602879701896397 / 36028797018963968)"
  by code_simp

lemma round32_one_tenth: "round32 (1 / 10) = Finite (13421773 / 134217728)"
  by code_simp

lemma round32_ties_to_even:
  "round32 16777217 = Finite 16777216" "round32 16777219 = Finite 16777220"
  by code_simp+

section \<open>Fit and letterbox\<close>


















end
